theory Spec2Isabelle
  imports Complex_Main
begin

section \<open>Conventions of the embedding\<close>

text \<open>
  The program is \<^verbatim>\<open>src/main.py\<close>: a progress bar (\<^verbatim>\<open>AdvancedProgressBar\<close>), a loop that
  executes cycles and drives the bar (\<^verbatim>\<open>perform_cycles\<close>), a summary of the measured times
  (\<^verbatim>\<open>calculate_performance_metrics\<close>) and a table of predictions
  (\<^verbatim>\<open>display_predictions\<close>).

  \<^item> Python's unbounded \<^verbatim>\<open>int\<close> is \<^typ>\<open>int\<close>; \<^verbatim>\<open>//\<close> and \<^verbatim>\<open>%\<close> on ints are
    \<open>div\<close> and \<open>mod\<close> (both round towards minus infinity, as Python does), with the
    \<^verbatim>\<open>ZeroDivisionError\<close> of a zero divisor written out.
  \<^item> Python's \<^verbatim>\<open>float\<close> is \<^typ>\<open>real\<close>. The times, the throughput, the estimates and the
    percentage are taken exact: for them rounding to double precision, overflow,
    infinities and NaN are outside the model, and an equation proved of them is an
    equation of exact arithmetic. The one place where a float becomes an integer,
    \<^verbatim>\<open>int(self.bar_length * progress)\<close> in \<^verbatim>\<open>update\<close>, is not continuous in its argument, so
    there every operation is rounded to double precision as the interpreter does
    (\<open>round_double\<close> below).
  \<^item> An exception is a value of type \<open>error\<close>; a function that can raise returns
    \<open>error + 'a\<close>, with \<open>Inl\<close> the exception.
  \<^item> The clocks (\<^verbatim>\<open>time.time\<close>, \<^verbatim>\<open>time.perf_counter_ns\<close>, \<^verbatim>\<open>time.process_time\<close>) are
    inputs: a method that reads a clock takes the reading as an argument, and the loop
    takes the readings from an arbitrary function of the number of readings made so far.
  \<^item> What is written to the terminal is kept as structured values (the fields of the
    progress line, the rows of the prediction table). The decorative glyphs, the headers
    and the wall-clock stamps of \<^verbatim>\<open>datetime.now\<close> are left out: they are not ASCII and no
    control flow depends on them.
\<close>

datatype error = ZeroDivisionError | ValueError

text \<open>Sequencing of computations that can raise.\<close>

definition bind :: "error + 'a \<Rightarrow> ('a \<Rightarrow> error + 'b) \<Rightarrow> error + 'b" where
  "bind r f = (case r of Inl e \<Rightarrow> Inl e | Inr x \<Rightarrow> f x)"

text \<open>\<^verbatim>\<open>a / b\<close> on two ints (true division) and on floats.\<close>

definition truediv_int :: "int \<Rightarrow> int \<Rightarrow> error + real" where
  "truediv_int a b = (if b = 0 then Inl ZeroDivisionError else Inr (real_of_int a / real_of_int b))"

definition truediv :: "real \<Rightarrow> real \<Rightarrow> error + real" where
  "truediv a b = (if b = 0 then Inl ZeroDivisionError else Inr (a / b))"

text \<open>\<^verbatim>\<open>a % b\<close> on two ints.\<close>

definition mod_int :: "int \<Rightarrow> int \<Rightarrow> error + int" where
  "mod_int a b = (if b = 0 then Inl ZeroDivisionError else Inr (a mod b))"

text \<open>\<^verbatim>\<open>int(x)\<close> on a float truncates towards zero.\<close>

definition int_of_float :: "real \<Rightarrow> int" where
  "int_of_float x = (if 0 \<le> x then \<lfloor>x\<rfloor> else \<lceil>x\<rceil>)"

text \<open>
  \<^verbatim>\<open>divmod(x, y)\<close> on floats with a positive divisor: the floored quotient and the
  remainder. Every call in the program has a literal divisor (60 or 3600).
\<close>

definition divmod :: "real \<Rightarrow> real \<Rightarrow> real \<times> real" where
  "divmod x y = (let q = real_of_int \<lfloor>x / y\<rfloor> in (q, x - q * y))"

subsection \<open>Fixed-point formatting\<close>

text \<open>
  \<^verbatim>\<open>f"{x:.1f}"\<close> and its relatives print the decimal expansion of \<open>x\<close> rounded to the given
  number of places, ties to even, with the sign of \<open>x\<close> in front.
\<close>

definition round_half_even :: "real \<Rightarrow> int" where
  "round_half_even x =
     (let f = \<lfloor>x\<rfloor>; d = x - real_of_int f
      in if d < 1 / 2 then f else if 1 / 2 < d then f + 1 else if even f then f else f + 1)"

definition digit :: "nat \<Rightarrow> char" where
  "digit n = ''0123456789'' ! n"

fun digits :: "nat \<Rightarrow> string" where
  "digits n = (if n < 10 then [digit n] else digits (n div 10) @ [digit (n mod 10)])"

declare digits.simps [simp del]

definition zfill :: "nat \<Rightarrow> string \<Rightarrow> string" where
  "zfill w s = replicate (w - length s) (CHR ''0'') @ s"

definition rjust :: "nat \<Rightarrow> string \<Rightarrow> string" where
  "rjust w s = replicate (w - length s) (CHR '' '') @ s"

definition format_f :: "nat \<Rightarrow> real \<Rightarrow> string" where
  "format_f p x =
     (let n = nat (round_half_even (\<bar>x\<bar> * 10 ^ p));
          whole = digits (n div 10 ^ p);
          frac = (if p = 0 then [] else ''.'' @ zfill p (digits (n mod 10 ^ p)))
      in (if x < 0 then ''-'' else []) @ whole @ frac)"

subsection \<open>Rounding to double precision\<close>

text \<open>
  A double has 53 significant bits, and every float operation of the interpreter returns
  the double nearest to the exact result, ties to even. \<open>bit_length n\<close> is the number of
  binary digits of \<open>n\<close> (\<^verbatim>\<open>int.bit_length\<close>); \<open>exponent x\<close>, for a positive \<open>x\<close>, is the \<open>e\<close>
  with \<open>2\<^sup>e \<le> x < 2\<^sup>e\<^sup>+\<^sup>1\<close>; \<open>round_float p x\<close> is the number with \<open>p\<close> significant bits nearest
  to \<open>x\<close>. The exponent is not bounded: overflow and subnormal numbers, which need
  magnitudes beyond \<open>2\<^sup>1\<^sup>0\<^sup>2\<^sup>3\<close> or below \<open>2\<^sup>-\<^sup>1\<^sup>0\<^sup>2\<^sup>2\<close>, are left out.
\<close>

fun bit_length :: "nat \<Rightarrow> nat" where
  "bit_length n = (if n = 0 then 0 else Suc (bit_length (n div 2)))"

declare bit_length.simps [simp del]

definition exponent :: "real \<Rightarrow> int" where
  "exponent x = (if 1 \<le> x then int (bit_length (nat \<lfloor>x\<rfloor>)) - 1
                 else - int (bit_length (nat (\<lceil>1 / x\<rceil> - 1))))"

definition round_float :: "nat \<Rightarrow> real \<Rightarrow> real" where
  "round_float p x =
     (if x = 0 then 0
      else (let ulp = 2 powi (exponent \<bar>x\<bar> + 1 - int p)
            in sgn x * real_of_int (round_half_even (\<bar>x\<bar> / ulp)) * ulp))"

definition round_double :: "real \<Rightarrow> real" where
  "round_double = round_float 53"

section \<open>The progress bar\<close>

text \<open>The attributes of an \<^verbatim>\<open>AdvancedProgressBar\<close> object.\<close>

record progress_bar =
  total :: int
  desc :: string
  bar_length :: int
  start_time :: real
  current :: int
  iteration_times :: "real list"

text \<open>\<^verbatim>\<open>__init__\<close>; \<open>now\<close> is the reading of \<^verbatim>\<open>time.time()\<close>.\<close>

definition init :: "real \<Rightarrow> int \<Rightarrow> string \<Rightarrow> int \<Rightarrow> progress_bar" where
  "init now tot d len =
     \<lparr>total = tot, desc = d, bar_length = len, start_time = now, current = 0,
      iteration_times = []\<rparr>"

text \<open>The two glyphs of the bar: the full block and the shaded block.\<close>

datatype cell = Filled | Empty

text \<open>
  What one call of \<^verbatim>\<open>update\<close> writes: the values that appear in \<^verbatim>\<open>progress_line\<close>, both as
  numbers and as the formatted texts.
\<close>

record progress_line =
  pl_desc :: string
  pl_bar :: "cell list"
  pl_progress :: real
  pl_percent :: real
  pl_percent_str :: string
  pl_speed :: real
  pl_speed_str :: string
  pl_elapsed_time :: real
  pl_elapsed_str :: string
  pl_eta :: real
  pl_eta_str :: string

text \<open>\<^verbatim>\<open>AdvancedProgressBar.format_time\<close>.\<close>

definition format_time :: "real \<Rightarrow> string" where
  "format_time seconds =
     (if seconds < 60 then format_f 1 seconds @ ''s''
      else if seconds < 3600 then
        (let (m, s) = divmod seconds 60 in format_f 0 m @ ''m '' @ format_f 0 s @ ''s'')
      else
        (let (h, m) = divmod seconds 3600;
             (m, s) = divmod m 60
         in format_f 0 h @ ''h '' @ format_f 0 m @ ''m''))"

text \<open>
  \<^verbatim>\<open>AdvancedProgressBar.update\<close>; \<open>now\<close> is the reading of \<^verbatim>\<open>time.time()\<close> made in the call.
  The result is the object after the call and the line written. \<^verbatim>\<open>'x' * n\<close> is the empty
  string for a negative \<open>n\<close>, as \<open>replicate (nat n)\<close> is.

  \<open>filled_length\<close> is computed as the interpreter computes it: \<^verbatim>\<open>current / self.total\<close> is the
  double nearest to the quotient of the two ints, \<^verbatim>\<open>min\<close> with \<^verbatim>\<open>1.0\<close> is exact, the int
  \<^verbatim>\<open>self.bar_length\<close> is converted to the nearest double, the product is rounded, and
  \<^verbatim>\<open>int\<close> truncates it.
\<close>

definition update :: "real \<Rightarrow> progress_bar \<Rightarrow> int \<Rightarrow> error + (progress_bar \<times> progress_line)" where
  "update now self cur =
     bind (truediv_int cur (total self)) (\<lambda>ratio.
       let progress = min ratio 1;
           filled_length =
             int_of_float (round_double (round_double (real_of_int (bar_length self))
                                         * min (round_double ratio) 1));
           bar = replicate (nat filled_length) Filled
                 @ replicate (nat (bar_length self - filled_length)) Empty;
           elapsed_time = now - start_time self;
           (speed, eta) =
             (if 0 < elapsed_time then
                (real_of_int cur / elapsed_time,
                 if 2 \<le> length (iteration_times self) then
                   (let avg_iteration_time =
                          sum_list (iteration_times self) / real (length (iteration_times self))
                    in if 0 < cur then avg_iteration_time * real_of_int (total self - cur) else 0)
                 else
                   (if 0 < progress then elapsed_time * (1 - progress) / progress else 0))
              else (0, 0));
           eta_str =
             (if eta < 60 then format_f 1 eta @ ''s''
              else if eta < 3600 then format_f 1 (eta / 60) @ ''m''
              else format_f 1 (eta / 3600) @ ''h'');
           line = \<lparr>pl_desc = desc self, pl_bar = bar, pl_progress = progress,
                   pl_percent = progress * 100,
                   pl_percent_str = rjust 6 (format_f 2 (progress * 100)),
                   pl_speed = speed, pl_speed_str = rjust 7 (format_f 0 speed),
                   pl_elapsed_time = elapsed_time, pl_elapsed_str = format_time elapsed_time,
                   pl_eta = eta, pl_eta_str = eta_str\<rparr>;
           times =
             (if 0 < cur then
                (let appended = iteration_times self @ [elapsed_time / real_of_int cur]
                 in if 100 < length appended then tl appended else appended)
              else iteration_times self)
       in Inr (self\<lparr>current := cur, iteration_times := times\<rparr>, line))"

text \<open>
  \<^verbatim>\<open>AdvancedProgressBar.finish\<close>: \<open>now\<close> is read inside \<^verbatim>\<open>update\<close>, \<open>now'\<close> after it. The
  result adds the text of the completion message.
\<close>

definition finish ::
  "real \<Rightarrow> real \<Rightarrow> progress_bar \<Rightarrow> error + (progress_bar \<times> progress_line \<times> string)" where
  "finish now now' self =
     bind (update now self (total self)) (\<lambda>(self', line).
       let elapsed = now' - start_time self'
       in Inr (self', line, ''Completed in '' @ format_time elapsed))"

text \<open>
  A sequence of calls of \<^verbatim>\<open>update\<close> on one object, each with its clock reading and its
  argument; the first call that raises ends the sequence.
\<close>

fun updates :: "progress_bar \<Rightarrow> (real \<times> int) list \<Rightarrow> error + progress_bar" where
  "updates self [] = Inr self"
| "updates self ((now, cur) # calls) =
     bind (update now self cur) (\<lambda>(self', line). updates self' calls)"

section \<open>The summary of a run\<close>

text \<open>
  The six values of \<^verbatim>\<open>metrics['rating']\<close>; each is printed as a glyph and the word.
  \<^verbatim>\<open>metrics['rating_emoji']\<close> repeats the glyph and is not kept apart.
\<close>

datatype rating = EXTREME | EXCELLENT | GREAT | GOOD | AVERAGE | SLOW

text \<open>The dictionary \<^verbatim>\<open>metrics\<close>, whose keys are fixed.\<close>

record metrics =
  total_time :: real
  cpu_time :: real
  cycles_per_second :: real
  seconds_per_cycle :: real
  cpu_efficiency :: real
  rating :: rating

text \<open>\<^verbatim>\<open>calculate_performance_metrics\<close>, with each division as the source guards it.\<close>

definition calculate_performance_metrics :: "int \<Rightarrow> real \<Rightarrow> real \<Rightarrow> error + metrics" where
  "calculate_performance_metrics num_cycles total_time_sec cpu_time_sec =
     bind (if 0 < total_time_sec then truediv (real_of_int num_cycles) total_time_sec
           else Inr 0) (\<lambda>per_second.
     bind (if 0 < num_cycles then truediv total_time_sec (real_of_int num_cycles)
           else Inr 0) (\<lambda>per_cycle.
     bind (if 0 < total_time_sec
           then bind (truediv cpu_time_sec total_time_sec) (\<lambda>q. Inr (q * 100))
           else Inr 0) (\<lambda>efficiency.
       let cps = per_second
       in Inr \<lparr>total_time = total_time_sec, cpu_time = cpu_time_sec,
                cycles_per_second = per_second, seconds_per_cycle = per_cycle,
                cpu_efficiency = efficiency,
                rating =
                  (if 10000000 \<le> cps then EXTREME
                   else if 1000000 \<le> cps then EXCELLENT
                   else if 100000 \<le> cps then GREAT
                   else if 10000 \<le> cps then GOOD
                   else if 1000 \<le> cps then AVERAGE
                   else SLOW)\<rparr>)))"

section \<open>The predictions\<close>

text \<open>The unit in which \<^verbatim>\<open>display_predictions\<close> prints an estimate.\<close>

datatype time_unit = Microseconds | Milliseconds | Seconds | Minutes | Hours

text \<open>One printed row: the count, the estimate, and its text as a number and a unit.\<close>

record prediction =
  pr_cycles :: int
  pr_estimated_time :: real
  pr_time_str :: string
  pr_unit :: time_unit

definition test_cycles :: "int list" where
  "test_cycles = [100, 1000, 10000, 100000, 1000000, 10000000, 100000000]"

text \<open>The body of the loop of \<^verbatim>\<open>display_predictions\<close> for a count that is shown.\<close>

definition predicted :: "real \<Rightarrow> int \<Rightarrow> prediction" where
  "predicted time_per_cycle cycles =
     (let estimated_time = time_per_cycle * real_of_int cycles;
          (time_str, unit) =
            (if estimated_time < 1 / 1000 then (format_f 1 (estimated_time * 1000000), Microseconds)
             else if estimated_time < 1 then (format_f 1 (estimated_time * 1000), Milliseconds)
             else if estimated_time < 60 then (format_f 2 estimated_time, Seconds)
             else if estimated_time < 3600 then (format_f 1 (estimated_time / 60), Minutes)
             else (format_f 2 (estimated_time / 3600), Hours))
      in \<lparr>pr_cycles = cycles, pr_estimated_time = estimated_time, pr_time_str = time_str,
          pr_unit = unit\<rparr>)"

fun predictions :: "int \<Rightarrow> real \<Rightarrow> int list \<Rightarrow> prediction list" where
  "predictions num_cycles time_per_cycle [] = []"
| "predictions num_cycles time_per_cycle (cycles # rest) =
     (if num_cycles < cycles then [predicted time_per_cycle cycles] else [])
     @ predictions num_cycles time_per_cycle rest"

text \<open>\<^verbatim>\<open>display_predictions\<close>: the rows printed, in order.\<close>

definition display_predictions :: "int \<Rightarrow> metrics \<Rightarrow> prediction list" where
  "display_predictions num_cycles m = predictions num_cycles (seconds_per_cycle m) test_cycles"

section \<open>The loop over the cycles\<close>

text \<open>
  The three clocks. Reading number \<open>k\<close> of the run (counted over all three clocks, from 0)
  returns the value of the clock's function at \<open>k\<close>.
\<close>

record clock =
  time_time :: "nat \<Rightarrow> real"
  perf_counter_ns :: "nat \<Rightarrow> int"
  process_time :: "nat \<Rightarrow> real"

text \<open>The dictionary \<^verbatim>\<open>performance_data\<close>.\<close>

record performance_data =
  start_memory :: int
  cycle_times :: "real list"
  batch_start :: real

text \<open>
  What the loop of \<^verbatim>\<open>perform_cycles\<close> carries: the number of clock readings made, the
  progress bar, \<^verbatim>\<open>performance_data\<close> and the progress lines written so far.
\<close>

record run =
  ticks :: nat
  progress_bar :: progress_bar
  data :: performance_data
  written :: "progress_line list"

text \<open>\<^verbatim>\<open>math.sqrt\<close> and \<^verbatim>\<open>math.log\<close>, which raise outside their domains.\<close>

definition math_sqrt :: "real \<Rightarrow> error + real" where
  "math_sqrt x = (if x < 0 then Inl ValueError else Inr (sqrt x))"

definition math_log :: "real \<Rightarrow> error + real" where
  "math_log x = (if x \<le> 0 then Inl ValueError else Inr (ln x))"

text \<open>The simulated work of cycle \<open>i\<close>.\<close>

definition work :: "int \<Rightarrow> error + real" where
  "work i =
     (if 0 < i then
        bind (math_sqrt (real_of_int i)) (\<lambda>a.
        bind (math_log (real_of_int (i + 1))) (\<lambda>b. Inr (a * b)))
      else Inr 0)"

text \<open>
  One pass of the body of the \<^verbatim>\<open>for\<close> loop. In both conditions the left operand, the
  remainder, is evaluated before the right one.
\<close>

definition cycle :: "clock \<Rightarrow> int \<Rightarrow> int \<Rightarrow> int \<Rightarrow> run \<Rightarrow> error + run" where
  "cycle clk num_cycles batch_size i st =
     bind (work i) (\<lambda>result.
     bind (mod_int i batch_size) (\<lambda>r.
       if r = 0 \<or> i = num_cycles - 1 then
         bind (update (time_time clk (ticks st)) (progress_bar st) (i + 1)) (\<lambda>(pb, line).
           let st' = st\<lparr>ticks := ticks st + 1, progress_bar := pb,
                         written := written st @ [line]\<rparr>
           in bind (mod_int i (num_cycles div 10)) (\<lambda>r'.
                if r' = 0 \<and> 0 < i then
                  (let current_time = time_time clk (ticks st');
                       batch_time = current_time - batch_start (data st')
                   in bind (truediv batch_time (real_of_int batch_size)) (\<lambda>per_cycle.
                        Inr (st'\<lparr>ticks := ticks st' + 1,
                                  data := (data st')\<lparr>batch_start := current_time,
                                    cycle_times := cycle_times (data st') @ [per_cycle]\<rparr>\<rparr>)))
                else Inr st'))
       else Inr st))"

text \<open>\<^verbatim>\<open>for i in range(num_cycles)\<close>, from \<open>i\<close> on; an exception ends the loop.\<close>

function cycles :: "clock \<Rightarrow> int \<Rightarrow> int \<Rightarrow> int \<Rightarrow> run \<Rightarrow> error + run" where
  "cycles clk num_cycles batch_size i st =
     (if i < num_cycles then
        (case cycle clk num_cycles batch_size i st of
           Inl e \<Rightarrow> Inl e
         | Inr st' \<Rightarrow> cycles clk num_cycles batch_size (i + 1) st')
      else Inr st)"
  by pat_completeness auto
termination
  by (relation "measure (\<lambda>(clk, num_cycles, batch_size, i, st). nat (num_cycles - i))") auto

declare cycles.simps [simp del]

text \<open>
  \<^verbatim>\<open>perform_cycles\<close>. The result is the tuple the function returns, together with the run
  at its end (the progress bar as \<^verbatim>\<open>finish\<close> leaves it and every line written). The bar
  is created with the default length 40.
\<close>

definition perform_cycles ::
  "clock \<Rightarrow> int \<Rightarrow> error + ((int \<times> real \<times> real \<times> performance_data) \<times> run)" where
  "perform_cycles clk num_cycles =
     (let start = perf_counter_ns clk 0;
          start_cpu_time = process_time clk 1;
          bar = init (time_time clk 2) num_cycles ''Processing'' 40;
          performance = \<lparr>start_memory = 0, cycle_times = [], batch_start = time_time clk 3\<rparr>;
          batch_size = max 1 (min (num_cycles div 100) 10000)
      in bind (cycles clk num_cycles batch_size 0
                 \<lparr>ticks = 4, progress_bar = bar, data = performance, written = []\<rparr>) (\<lambda>st.
         bind (finish (time_time clk (ticks st)) (time_time clk (ticks st + 1))
                 (progress_bar st)) (\<lambda>(pb, line, message).
           let end_time = perf_counter_ns clk (ticks st + 2);
               end_cpu_time = process_time clk (ticks st + 3);
               total_time_ns = end_time - start;
               total_time_sec = real_of_int total_time_ns / 1000000000;
               cpu_time_sec = end_cpu_time - start_cpu_time
           in Inr ((total_time_ns, total_time_sec, cpu_time_sec, data st),
                   st\<lparr>ticks := ticks st + 4, progress_bar := pb,
                      written := written st @ [line]\<rparr>))))"

section \<open>The top level\<close>

text \<open>
  How \<^verbatim>\<open>main\<close> ends once the prompt has produced \<open>num_cycles\<close>: the run is cancelled at the
  confirmation prompt, or it completes with its metrics and predictions, or an exception
  reaches the handler \<^verbatim>\<open>except Exception\<close>, which prints it.
\<close>

datatype outcome = Cancelled | Completed metrics "prediction list" | Reported error

text \<open>
  \<^verbatim>\<open>main\<close> after the prompt loop; \<open>confirm\<close> is the lower-cased answer to the
  confirmation prompt, which is only asked above a million cycles.
\<close>

definition main :: "clock \<Rightarrow> int \<Rightarrow> string \<Rightarrow> outcome" where
  "main clk num_cycles confirm =
     (if 1000000 < num_cycles \<and> confirm \<notin> set [''y'', ''yes''] then Cancelled
      else
        (case bind (perform_cycles clk num_cycles)
                (\<lambda>((total_ns, total_sec, cpu_time_sec, performance), st).
                   bind (calculate_performance_metrics num_cycles total_sec cpu_time_sec)
                     (\<lambda>m. Inr (m, display_predictions num_cycles m))) of
           Inl e \<Rightarrow> Reported e
         | Inr (m, rows) \<Rightarrow> Completed m rows))"

section \<open>Properties\<close>

subsection \<open>Sequencing\<close>

lemma bind_Inr_iff: "bind r f = Inr y \<longleftrightarrow> (\<exists>x. r = Inr x \<and> f x = Inr y)"
  by (cases r) (simp_all add: bind_def)

lemma bind_Inl_iff: "bind r f = Inl e \<longleftrightarrow> r = Inl e \<or> (\<exists>x. r = Inr x \<and> f x = Inl e)"
  by (cases r) (simp_all add: bind_def)

subsection \<open>Rounding to double precision\<close>

text \<open>
  Rounding to the nearest integer moves a number by at most one half, keeps the integers
  and is monotone.
\<close>

lemma round_half_even_bounds:
  "\<lfloor>y\<rfloor> \<le> round_half_even y" "round_half_even y \<le> \<lfloor>y\<rfloor> + 1"
  by (simp_all add: round_half_even_def Let_def)

lemma round_half_even_error: "\<bar>real_of_int (round_half_even y) - y\<bar> \<le> 1 / 2"
proof -
  have "real_of_int \<lfloor>y\<rfloor> \<le> y" "y < real_of_int \<lfloor>y\<rfloor> + 1"
    by linarith+
  then show ?thesis
    by (auto simp add: round_half_even_def Let_def)
qed

lemma round_half_even_of_int: "round_half_even (real_of_int n) = n"
  by (simp add: round_half_even_def)

lemma round_half_even_mono:
  assumes "y \<le> z"
  shows "round_half_even y \<le> round_half_even z"
proof (cases "\<lfloor>y\<rfloor> = \<lfloor>z\<rfloor>")
  case True
  with assms show ?thesis
    by (auto simp add: round_half_even_def Let_def)
next
  case False
  with assms have "\<lfloor>y\<rfloor> + 1 \<le> \<lfloor>z\<rfloor>"
    using floor_mono [of y z] by linarith
  with round_half_even_bounds(2) [of y] round_half_even_bounds(1) [of z] show ?thesis
    by linarith
qed

text \<open>\<open>bit_length\<close> and \<open>exponent\<close> locate a positive number between two powers of two.\<close>

lemma bit_length_bounds:
  "0 < n \<Longrightarrow> 2 ^ (bit_length n - 1) \<le> n \<and> n < 2 ^ bit_length n"
proof (induction n rule: bit_length.induct)
  case (1 n)
  show ?case
  proof (cases "n div 2 = 0")
    case True
    with "1.prems" have "n = 1" by presburger
    then show ?thesis
      by (simp add: bit_length.simps)
  next
    case False
    with "1.IH" "1.prems" have IH: "2 ^ (bit_length (n div 2) - 1) \<le> n div 2"
      "n div 2 < 2 ^ bit_length (n div 2)"
      by simp_all
    have pos: "0 < bit_length (n div 2)"
      using False by (subst bit_length.simps) simp
    have unfold: "bit_length n = Suc (bit_length (n div 2))"
      using "1.prems" by (subst bit_length.simps) simp
    have "2 ^ (bit_length n - 1) = 2 * 2 ^ (bit_length (n div 2) - 1)"
      using pos by (cases "bit_length (n div 2)") (simp_all add: unfold)
    also have "\<dots> \<le> 2 * (n div 2)"
      using IH(1) by simp
    also have "\<dots> \<le> n"
      by presburger
    finally have lower: "2 ^ (bit_length n - 1) \<le> n" .
    have "n < 2 * (n div 2) + 2"
      by presburger
    also have "\<dots> \<le> 2 * 2 ^ bit_length (n div 2)"
      using IH(2) by simp
    finally have "n < 2 ^ bit_length n"
      by (simp add: unfold)
    with lower show ?thesis ..
  qed
qed

lemma bit_length_pos: "0 < n \<Longrightarrow> 0 < bit_length n"
  by (subst bit_length.simps) simp

lemma exponent_bounds:
  assumes "0 < x"
  shows "2 powi (exponent x) \<le> x" and "x < 2 powi (exponent x + 1)"
proof -
  have "2 powi (exponent x) \<le> x \<and> x < 2 powi (exponent x + 1)"
  proof (cases "1 \<le> x")
    case True
    define n where "n = nat \<lfloor>x\<rfloor>"
    define b where "b = bit_length n"
    have "1 \<le> \<lfloor>x\<rfloor>"
      using True by linarith
    then have real_n: "real n = real_of_int \<lfloor>x\<rfloor>"
      by (simp add: n_def)
    have n: "0 < n" "real n \<le> x" "x < real n + 1"
      using \<open>1 \<le> \<lfloor>x\<rfloor>\<close> unfolding real_n by (simp add: n_def, linarith, linarith)
    have b: "0 < b" "2 ^ (b - 1) \<le> n" "n < 2 ^ b"
      using bit_length_bounds [OF n(1)] bit_length_pos [OF n(1)] by (simp_all add: b_def)
    have e: "exponent x = int (b - 1)" "exponent x + 1 = int b"
      using True b(1) by (simp_all add: exponent_def b_def n_def)
    have "real (2 ^ (b - 1)) \<le> real n"
      using b(2) by (intro of_nat_mono)
    then have "(2::real) ^ (b - 1) \<le> real n"
      by simp
    then have lower: "(2::real) ^ (b - 1) \<le> x"
      using n(2) by linarith
    have "real (Suc n) \<le> real (2 ^ b)"
      using b(3) by (intro of_nat_mono) simp
    then have "real n + 1 \<le> 2 ^ b"
      by simp
    then have "x < 2 ^ b"
      using n(3) by linarith
    moreover have "(2::real) powi (exponent x) = 2 ^ (b - 1)"
      by (simp only: e(1) power_int_of_nat)
    moreover have "(2::real) powi (exponent x + 1) = 2 ^ b"
      by (simp only: e(2) power_int_of_nat)
    ultimately show ?thesis
      using lower by simp
  next
    case False
    define y where "y = 1 / x"
    define m where "m = nat (\<lceil>y\<rceil> - 1)"
    define b where "b = bit_length m"
    have y: "1 < y" "x = 1 / y"
      using assms False by (simp_all add: y_def)
    then have "2 \<le> \<lceil>y\<rceil>"
      by linarith
    then have real_m: "real m = real_of_int \<lceil>y\<rceil> - 1"
      by (simp add: m_def)
    have m: "0 < m" "real m < y" "y \<le> real m + 1"
      using \<open>2 \<le> \<lceil>y\<rceil>\<close> unfolding real_m by (simp add: m_def, linarith, linarith)
    have b: "0 < b" "2 ^ (b - 1) \<le> m" "m < 2 ^ b"
      using bit_length_bounds [OF m(1)] bit_length_pos [OF m(1)] by (simp_all add: b_def)
    have e: "exponent x = - int b" "exponent x + 1 = - int (b - 1)"
      using False b(1) by (simp_all add: exponent_def b_def m_def y_def)
    have "real (2 ^ (b - 1)) \<le> real m"
      using b(2) by (intro of_nat_mono)
    then have "(2::real) ^ (b - 1) \<le> real m"
      by simp
    then have lower: "(2::real) ^ (b - 1) < y"
      using m(2) by linarith
    have "real (Suc m) \<le> real (2 ^ b)"
      using b(3) by (intro of_nat_mono) simp
    then have "real m + 1 \<le> 2 ^ b"
      by simp
    then have upper: "y \<le> 2 ^ b"
      using m(3) by linarith
    have "1 / 2 ^ b \<le> 1 / y"
      using upper y(1) by (intro divide_left_mono) simp_all
    moreover have "1 / y < 1 / 2 ^ (b - 1)"
      using lower y(1) by (intro divide_strict_left_mono) simp_all
    moreover have "(2::real) powi (exponent x) = 1 / 2 ^ b"
      by (simp only: e(1) power_int_minus power_int_of_nat inverse_eq_divide)
    moreover have "(2::real) powi (exponent x + 1) = 1 / 2 ^ (b - 1)"
      by (simp only: e(2) power_int_minus power_int_of_nat inverse_eq_divide)
    ultimately show ?thesis
      by (simp only: y(2))
  qed
  then show "2 powi (exponent x) \<le> x" and "x < 2 powi (exponent x + 1)"
    by simp_all
qed

text \<open>
  \<open>round_float p\<close> on numbers that are not negative: the relative error is at most
  \<open>2\<^sup>-\<^sup>p\<close>, the result stays in the binade of the argument, the function is monotone, and
  the integers below \<open>2\<^sup>p\<close> are kept.
\<close>

lemma round_float_pos:
  "0 < x \<Longrightarrow>
     round_float p x
       = real_of_int (round_half_even (x / 2 powi (exponent x + 1 - int p)))
         * 2 powi (exponent x + 1 - int p)"
  by (simp add: round_float_def Let_def)

lemma ulp_eq: "(2::real) powi (e + 1 - int p) = 2 * 2 powi e / 2 ^ p"
  by (simp add: power_int_diff power_int_add)

lemma scaled_bounds:
  assumes "0 < x"
  shows "2 ^ p \<le> 2 * (x / 2 powi (exponent x + 1 - int p))"
    and "x / 2 powi (exponent x + 1 - int p) < 2 ^ p"
proof -
  define r where "r = x / 2 powi (exponent x)"
  have pos: "(0::real) < 2 powi (exponent x)"
    by simp
  have scaled: "x / 2 powi (exponent x + 1 - int p) = r * 2 ^ p / 2"
    by (simp add: ulp_eq r_def)
  have "1 \<le> r"
    unfolding r_def using exponent_bounds(1) [OF assms] pos by (simp add: field_simps)
  then have "1 * 2 ^ p \<le> r * 2 ^ p"
    by (intro mult_right_mono) simp_all
  then show "2 ^ p \<le> 2 * (x / 2 powi (exponent x + 1 - int p))"
    unfolding scaled by simp
  have "r < 2"
    unfolding r_def using exponent_bounds(2) [OF assms] pos
    by (simp add: power_int_add field_simps)
  then have "r * 2 ^ p < 2 * 2 ^ p"
    by (intro mult_strict_right_mono) simp_all
  then show "x / 2 powi (exponent x + 1 - int p) < 2 ^ p"
    unfolding scaled by simp
qed

lemma round_float_error:
  assumes "0 \<le> x"
  shows "\<bar>round_float p x - x\<bar> \<le> x / 2 ^ p"
proof (cases "x = 0")
  case True
  then show ?thesis by (simp add: round_float_def)
next
  case False
  with assms have pos: "0 < x" by simp
  define u :: real where "u = 2 powi (exponent x + 1 - int p)"
  have "2 powi (exponent x) / 2 ^ p \<le> x / 2 ^ p"
    using exponent_bounds(1) [OF pos] by (intro divide_right_mono) simp_all
  then have u: "0 < u" "1 / 2 * u \<le> x / 2 ^ p"
    by (simp_all add: u_def ulp_eq)
  have "round_float p x - x = (real_of_int (round_half_even (x / u)) - x / u) * u"
    unfolding round_float_pos [OF pos] u_def [symmetric]
    using u(1) by (simp add: field_simps)
  then have "\<bar>round_float p x - x\<bar> = \<bar>real_of_int (round_half_even (x / u)) - x / u\<bar> * u"
    using u(1) by (simp add: abs_mult)
  also have "\<dots> \<le> 1 / 2 * u"
    using round_half_even_error [of "x / u"] u(1) by (intro mult_right_mono) simp_all
  also note u(2)
  finally show ?thesis .
qed

lemma round_float_nonneg: "0 \<le> x \<Longrightarrow> 0 \<le> round_float p x"
proof (cases "x = 0")
  case True
  then show ?thesis by (simp add: round_float_def)
next
  case False
  assume "0 \<le> x"
  with False have pos: "0 < x" by simp
  have "0 \<le> x / 2 powi (exponent x + 1 - int p)"
    using pos by simp
  then have "0 \<le> round_half_even (x / 2 powi (exponent x + 1 - int p))"
    using round_half_even_bounds(1) [of "x / 2 powi (exponent x + 1 - int p)"] by linarith
  then show ?thesis
    by (simp add: round_float_pos [OF pos])
qed

lemma round_float_binade:
  assumes "0 < x" and "0 < p"
  shows "2 powi (exponent x) \<le> round_float p x"
    and "round_float p x \<le> 2 powi (exponent x + 1)"
proof -
  let ?u = "(2::real) powi (exponent x + 1 - int p)"
  let ?m = "round_half_even (x / ?u)"
  have half: "(2::real) ^ p = 2 * 2 ^ (p - 1)"
    using assms(2) by (cases p) simp_all
  have "real_of_int (2 ^ (p - 1)) \<le> x / ?u"
    using scaled_bounds(1) [OF assms(1), of p] unfolding half by simp
  then have "round_half_even (real_of_int (2 ^ (p - 1))) \<le> ?m"
    by (rule round_half_even_mono)
  then have "real_of_int (2 ^ (p - 1)) \<le> real_of_int ?m"
    by (simp only: round_half_even_of_int of_int_le_iff)
  then have "real_of_int (2 ^ (p - 1)) * ?u \<le> real_of_int ?m * ?u"
    by (intro mult_right_mono) simp_all
  moreover have "real_of_int (2 ^ (p - 1)) * ?u = 2 powi (exponent x)"
    by (simp add: ulp_eq half)
  ultimately show "2 powi (exponent x) \<le> round_float p x"
    by (simp only: round_float_pos [OF assms(1)])
  have "x / ?u \<le> real_of_int (2 ^ p)"
    using scaled_bounds(2) [OF assms(1), of p] by simp
  then have "?m \<le> round_half_even (real_of_int (2 ^ p))"
    by (rule round_half_even_mono)
  then have "real_of_int ?m \<le> real_of_int (2 ^ p)"
    by (simp only: round_half_even_of_int of_int_le_iff)
  then have "real_of_int ?m * ?u \<le> real_of_int (2 ^ p) * ?u"
    by (intro mult_right_mono) simp_all
  moreover have "real_of_int (2 ^ p) * ?u = 2 powi (exponent x + 1)"
    by (simp add: ulp_eq power_int_add)
  ultimately show "round_float p x \<le> 2 powi (exponent x + 1)"
    by (simp only: round_float_pos [OF assms(1)])
qed

lemma exponent_mono:
  assumes "0 < x" and "x \<le> y"
  shows "exponent x \<le> exponent y"
proof (rule ccontr)
  assume "\<not> exponent x \<le> exponent y"
  then have "exponent y + 1 \<le> exponent x"
    by simp
  then have "(2::real) powi (exponent y + 1) \<le> 2 powi (exponent x)"
    by (intro power_int_increasing) simp_all
  moreover have "y < 2 powi (exponent y + 1)"
    using assms by (intro exponent_bounds(2)) simp
  moreover have "2 powi (exponent x) \<le> x"
    using assms(1) by (rule exponent_bounds(1))
  ultimately show False
    using assms(2) by linarith
qed

lemma round_float_mono:
  assumes "0 \<le> x" and "x \<le> y" and "0 < p"
  shows "round_float p x \<le> round_float p y"
proof (cases "x = 0")
  case True
  then show ?thesis
    using assms round_float_nonneg [of y p] by (simp add: round_float_def)
next
  case False
  with assms have pos: "0 < x" "0 < y" by simp_all
  show ?thesis
  proof (cases "exponent x = exponent y")
    case True
    let ?u = "(2::real) powi (exponent y + 1 - int p)"
    have "x / ?u \<le> y / ?u"
      using assms(2) by (intro divide_right_mono) simp_all
    then have "round_half_even (x / ?u) \<le> round_half_even (y / ?u)"
      by (rule round_half_even_mono)
    then have "real_of_int (round_half_even (x / ?u)) * ?u
                 \<le> real_of_int (round_half_even (y / ?u)) * ?u"
      by (intro mult_right_mono) simp_all
    then show ?thesis
      by (simp only: round_float_pos pos True)
  next
    case False
    with exponent_mono [OF pos(1) assms(2)] have "exponent x + 1 \<le> exponent y"
      by simp
    then have "(2::real) powi (exponent x + 1) \<le> 2 powi (exponent y)"
      by (intro power_int_increasing) simp_all
    with round_float_binade(2) [OF pos(1) assms(3)] round_float_binade(1) [OF pos(2) assms(3)]
    show ?thesis
      by linarith
  qed
qed

lemma round_float_of_int:
  assumes "0 \<le> n" and "n < 2 ^ p"
  shows "round_float p (real_of_int n) = real_of_int n"
proof (cases "n = 0")
  case True
  then show ?thesis by (simp add: round_float_def)
next
  case False
  with assms have pos: "0 < real_of_int n" by simp
  define e where "e = exponent (real_of_int n)"
  have "(2::real) powi e \<le> real_of_int n"
    unfolding e_def using pos by (rule exponent_bounds(1))
  also have "real_of_int n < real_of_int (2 ^ p)"
    using assms(2) by (simp only: of_int_less_iff)
  also have "real_of_int (2 ^ p) = 2 powi (int p)"
    by simp
  finally have less: "(2::real) powi e < 2 powi (int p)" .
  have "e < int p"
  proof (rule ccontr)
    assume "\<not> e < int p"
    then have "(2::real) powi (int p) \<le> 2 powi e"
      by (intro power_int_increasing) simp_all
    with less show False by simp
  qed
  define k where "k = nat (int p - e - 1)"
  have k: "e + 1 - int p = - int k"
    using \<open>e < int p\<close> by (simp add: k_def)
  have u: "(2::real) powi (e + 1 - int p) = 1 / 2 ^ k"
    by (simp only: k power_int_minus power_int_of_nat inverse_eq_divide)
  have "real_of_int n / 2 powi (e + 1 - int p) = real_of_int (n * 2 ^ k)"
    by (simp add: u)
  then have "round_half_even (real_of_int n / 2 powi (e + 1 - int p)) = n * 2 ^ k"
    by (simp only: round_half_even_of_int)
  then show ?thesis
    by (simp add: round_float_pos [OF pos] e_def [symmetric] u)
qed

text \<open>The definitions that evaluate \<open>round_double\<close> on a given number.\<close>

lemmas double_eval = round_double_def round_float_def exponent_def bit_length.simps
  round_half_even_def Let_def

text \<open>
  On the default bar of 40 cells, a fraction \<open>n / 40\<close> gives back \<open>n\<close> cells: the 41 cases.
\<close>

lemma default_bar_table:
  assumes "0 \<le> n" and "n \<le> 40"
  shows "\<lfloor>round_double (40 * round_double (real_of_int n / 40))\<rfloor> = n"
proof -
  have "n \<in> {0, 1, 2, 3, 4, 5, 6, 7, 8, 9, 10, 11, 12, 13, 14, 15, 16, 17, 18, 19, 20, 21, 22, 23, 24, 25, 26, 27, 28, 29, 30, 31, 32, 33, 34, 35, 36, 37, 38, 39, 40}"
    using assms by simp presburger
  then show ?thesis
    by (elim insertE emptyE) (simp_all add: double_eval)
qed

text \<open>The facts above at 53 bits.\<close>

lemma round_double_error: "0 \<le> x \<Longrightarrow> \<bar>round_double x - x\<bar> \<le> x / 2 ^ 53"
  unfolding round_double_def by (rule round_float_error)

lemma round_double_nonneg: "0 \<le> x \<Longrightarrow> 0 \<le> round_double x"
  unfolding round_double_def by (rule round_float_nonneg)

lemma round_double_mono: "0 \<le> x \<Longrightarrow> x \<le> y \<Longrightarrow> round_double x \<le> round_double y"
  unfolding round_double_def by (rule round_float_mono) simp_all

lemma round_double_of_int:
  "0 \<le> n \<Longrightarrow> n < 2 ^ 53 \<Longrightarrow> round_double (real_of_int n) = real_of_int n"
  unfolding round_double_def by (rule round_float_of_int)

lemma round_double_one: "round_double 1 = 1"
  using round_double_of_int [of 1] by simp

text \<open>
  The float truncated by \<^verbatim>\<open>int(self.bar_length * progress)\<close>: it lies between 0 and the
  length of the bar, within \<open>bar_length / 2\<^sup>5\<^sup>2\<close> of the exact product, so that its integer
  part is the exact floor or one less, and the exact floor when the product is not an
  integer.
\<close>

lemma filled_bounds:
  fixes L c t :: int
  assumes t: "0 < t" and c: "0 \<le> c" "c \<le> t" and L: "0 \<le> L" "L * t < 2 ^ 52"
  defines "x \<equiv> round_double (round_double (real_of_int L)
                    * min (round_double (real_of_int c / real_of_int t)) 1)"
  shows "0 \<le> x" and "x \<le> real_of_int L"
    and "\<bar>x - real_of_int (L * c) / real_of_int t\<bar> \<le> real_of_int L / 2 ^ 52"
proof -
  define q where "q = real_of_int c / real_of_int t"
  define q' where "q' = round_double q"
  define y where "y = real_of_int L * q'"
  have "L * 1 \<le> L * t"
    using t L(1) by (intro mult_left_mono) simp_all
  with L(2) have "L < 2 ^ 53"
    by simp
  with L(1) have rdL: "round_double (real_of_int L) = real_of_int L"
    by (rule round_double_of_int)
  have q: "0 \<le> q" "q \<le> 1"
    using t c by (simp_all add: q_def)
  have q': "0 \<le> q'" "q' \<le> 1"
    using round_double_nonneg [OF q(1)] round_double_mono [OF q] round_double_one
    by (simp_all add: q'_def)
  have x: "x = round_double y"
    using q'(2) by (simp add: x_def rdL y_def q'_def q_def)
  have y: "0 \<le> y" "y \<le> real_of_int L"
    using L(1) q' by (simp_all add: y_def mult_left_le)
  show "0 \<le> x"
    unfolding x using y(1) by (rule round_double_nonneg)
  show "x \<le> real_of_int L"
    using round_double_mono [OF y] by (simp only: x rdL)
  have "\<bar>q' - q\<bar> \<le> q / 2 ^ 53"
    unfolding q'_def using q(1) by (rule round_double_error)
  also have "\<dots> \<le> 1 / 2 ^ 53"
    using q(2) by (intro divide_right_mono) simp_all
  finally have "real_of_int L * \<bar>q' - q\<bar> \<le> real_of_int L * (1 / 2 ^ 53)"
    using L(1) by (intro mult_left_mono) simp_all
  moreover have "\<bar>y - real_of_int L * q\<bar> = real_of_int L * \<bar>q' - q\<bar>"
    using L(1) by (simp add: y_def right_diff_distrib [symmetric] abs_mult)
  ultimately have first: "\<bar>y - real_of_int L * q\<bar> \<le> real_of_int L / 2 ^ 53"
    by simp
  have "\<bar>x - y\<bar> \<le> y / 2 ^ 53"
    unfolding x using y(1) by (rule round_double_error)
  also have "\<dots> \<le> real_of_int L / 2 ^ 53"
    using y(2) by (intro divide_right_mono) simp_all
  finally have second: "\<bar>x - y\<bar> \<le> real_of_int L / 2 ^ 53" .
  have "\<bar>x - real_of_int L * q\<bar> \<le> real_of_int L / 2 ^ 53 + real_of_int L / 2 ^ 53"
    using first second by linarith
  moreover have "real_of_int L * q = real_of_int (L * c) / real_of_int t"
    by (simp add: q_def)
  ultimately show "\<bar>x - real_of_int (L * c) / real_of_int t\<bar> \<le> real_of_int L / 2 ^ 52"
    by simp
qed

lemma filled_floor:
  fixes L c t :: int
  assumes t: "0 < t" and c: "0 \<le> c" "c \<le> t" and L: "0 \<le> L" "L * t < 2 ^ 52"
  defines "x \<equiv> round_double (round_double (real_of_int L)
                    * min (round_double (real_of_int c / real_of_int t)) 1)"
  shows "(L * c) div t - 1 \<le> \<lfloor>x\<rfloor>" and "\<lfloor>x\<rfloor> \<le> (L * c) div t"
    and "(L * c) mod t \<noteq> 0 \<Longrightarrow> \<lfloor>x\<rfloor> = (L * c) div t"
proof -
  define n where "n = (L * c) div t"
  define j where "j = (L * c) mod t"
  define d where "d = real_of_int L / 2 ^ 52"
  have j: "0 \<le> j" "j \<le> t - 1"
    using t by (simp_all add: j_def)
  have "L * c = n * t + j"
    by (simp add: n_def j_def)
  then have "real_of_int (L * c) = real_of_int n * real_of_int t + real_of_int j"
    by (simp only: of_int_add of_int_mult)
  then have exact: "real_of_int (L * c) / real_of_int t = real_of_int n + real_of_int j / real_of_int t"
    using t by (simp add: field_simps)
  have "real_of_int (L * t) < 2 ^ 52"
    using L(2) by (simp only: of_int_less_iff [symmetric, where ?'a = real] of_int_power of_int_numeral)
  then have d: "d * real_of_int t < 1"
    by (simp add: d_def)
  then have d': "d < 1 / real_of_int t"
    using t by (simp add: field_simps)
  have d0: "0 \<le> d"
    using L(1) by (simp add: d_def)
  have close: "\<bar>x - (real_of_int n + real_of_int j / real_of_int t)\<bar> \<le> d"
    using filled_bounds(3) [OF t c L] by (simp only: x_def exact d_def)
  have frac: "0 \<le> real_of_int j / real_of_int t"
    "real_of_int j / real_of_int t \<le> 1 - 1 / real_of_int t"
    using j t by (simp_all add: field_simps)
  have one: "1 / real_of_int t \<le> 1"
    using t by simp
  have "real_of_int n - 1 \<le> x"
    using close frac(1) d' one by linarith
  then have "real_of_int (n - 1) \<le> x"
    by simp
  then show "(L * c) div t - 1 \<le> \<lfloor>x\<rfloor>"
    unfolding n_def [symmetric] by (simp only: le_floor_iff)
  have "x < real_of_int n + 1"
    using close frac(2) d' by linarith
  then show "\<lfloor>x\<rfloor> \<le> (L * c) div t"
    unfolding n_def [symmetric] by (simp add: floor_le_iff)
  assume "(L * c) mod t \<noteq> 0"
  with j(1) have "1 \<le> j"
    by (simp add: j_def)
  then have "1 / real_of_int t \<le> real_of_int j / real_of_int t"
    using t by (intro divide_right_mono) simp_all
  then have "real_of_int n \<le> x"
    using close d' by linarith
  with \<open>x < real_of_int n + 1\<close> show "\<lfloor>x\<rfloor> = (L * c) div t"
    unfolding n_def [symmetric] by (simp add: floor_eq_iff)
qed

lemma filled_default:
  fixes c t :: int
  assumes t: "0 < t" "40 * t < 2 ^ 52" and c: "0 \<le> c" "c \<le> t"
  shows "\<lfloor>round_double (round_double (real_of_int 40)
            * min (round_double (real_of_int c / real_of_int t)) 1)\<rfloor> = (40 * c) div t"
proof (cases "(40 * c) mod t = 0")
  case False
  then show ?thesis
    using t c by (intro filled_floor(3)) simp_all
next
  case True
  define n where "n = (40 * c) div t"
  have nt: "40 * c = n * t"
    using True div_mult_mod_eq [of "40 * c" t] by (simp add: n_def)
  then have "real_of_int (40 * c) = real_of_int (n * t)"
    by (simp only:)
  then have ratio: "real_of_int c / real_of_int t = real_of_int n / 40"
    using t(1) by (simp add: field_simps)
  have "0 \<le> n"
    using t(1) c(1) by (simp add: n_def pos_imp_zdiv_nonneg_iff)
  moreover have "n * t \<le> 40 * t"
    using c(2) by (simp add: nt [symmetric])
  then have "n \<le> 40"
    using t(1) by (simp only: mult_le_cancel_right)
  ultimately have n: "0 \<le> n" "n \<le> 40"
    by simp_all
  have le: "round_double (real_of_int n / 40) \<le> 1"
    using round_double_mono [of "real_of_int n / 40" 1] n round_double_one by simp
  have "round_double (real_of_int 40) = 40"
    using round_double_of_int [of 40] by simp
  then show ?thesis
    unfolding n_def [symmetric] ratio using le default_bar_table [OF n] by simp
qed

subsection \<open>One call of update\<close>

text \<open>\<^verbatim>\<open>update\<close> raises exactly when \<open>total\<close> is zero, at the division \<^verbatim>\<open>current / self.total\<close>.\<close>

lemma update_raises: "total self = 0 \<Longrightarrow> update now self cur = Inl ZeroDivisionError"
  by (simp add: update_def truediv_int_def bind_def)

lemma update_returns:
  "total self \<noteq> 0 \<Longrightarrow> \<exists>self' line. update now self cur = Inr (self', line)"
  by (simp add: update_def truediv_int_def bind_def Let_def split: prod.splits)

text \<open>The sample buffer after a call, and the attributes a call leaves alone.\<close>

lemma update_iteration_times:
  assumes "update now self cur = Inr (self', line)"
  shows "iteration_times self' =
           (if 0 < cur then
              (if length (iteration_times self) < 100
               then iteration_times self @ [(now - start_time self) / real_of_int cur]
               else tl (iteration_times self) @ [(now - start_time self) / real_of_int cur])
            else iteration_times self)"
  using assms
  by (cases "iteration_times self")
     (auto simp add: update_def truediv_int_def bind_def Let_def split: prod.splits if_splits)

lemma update_attributes:
  assumes "update now self cur = Inr (self', line)"
  shows "total self' = total self \<and> bar_length self' = bar_length self
         \<and> start_time self' = start_time self \<and> desc self' = desc self \<and> current self' = cur"
  using assms
  by (auto simp add: update_def truediv_int_def bind_def Let_def split: prod.splits if_splits)

lemma update_keeps_bound:
  assumes "update now self cur = Inr (self', line)" and "length (iteration_times self) \<le> 100"
  shows "length (iteration_times self') \<le> 100"
  using assms(2) by (simp add: update_iteration_times [OF assms(1)])

lemma updates_keeps_bound:
  "updates self calls = Inr self' \<Longrightarrow> length (iteration_times self) \<le> 100
     \<Longrightarrow> length (iteration_times self') \<le> 100"
proof (induction calls arbitrary: self)
  case Nil
  then show ?case by simp
next
  case (Cons call calls)
  obtain now cur where call: "call = (now, cur)" by (cases call)
  from Cons.prems(1) obtain mid line
    where step: "update now self cur = Inr (mid, line)" and rest: "updates mid calls = Inr self'"
    by (auto simp add: call bind_Inr_iff)
  from update_keeps_bound [OF step Cons.prems(2)] Cons.IH [OF rest] show ?case by simp
qed

lemma count_list_replicate: "count_list (replicate n x) y = (if x = y then n else 0)"
  by (induction n) auto

text \<open>The bar written by a call that returns, in terms of the number of filled cells.\<close>

lemma update_line_bar:
  assumes "update now self cur = Inr (self', line)"
  shows "pl_bar line =
           (let k = int_of_float
                      (round_double (round_double (real_of_int (bar_length self))
                         * min (round_double (real_of_int cur / real_of_int (total self))) 1))
            in replicate (nat k) Filled @ replicate (nat (bar_length self - k)) Empty)"
    and "pl_progress line = min (real_of_int cur / real_of_int (total self)) 1"
    and "pl_percent line = min (real_of_int cur / real_of_int (total self)) 1 * 100"
  using assms
  by (auto simp add: update_def truediv_int_def bind_def Let_def split: prod.splits if_splits)

text \<open>
  Claim C1 as stated fails. On a bar of 22 cells with \<open>total = 22\<close>, \<^verbatim>\<open>update(15)\<close> returns and
  draws 14 filled cells and 8 empty ones, while \<open>\<lfloor>22 * 15 / 22\<rfloor> = 15\<close>: the double nearest
  to \<open>15 / 22\<close> lies below it, and 22 times that double rounds to a double below 15.
\<close>

theorem update_bar_one_cell_short:
  "0 < total (init 0 22 ''Processing'' 22) \<and> (0::int) \<le> 15
   \<and> 15 \<le> total (init 0 22 ''Processing'' 22)
   \<and> \<not> isl (update 1 (init 0 22 ''Processing'' 22) 15)
   \<and> pl_bar (snd (projr (update 1 (init 0 22 ''Processing'' 22) 15)))
       = replicate 14 Filled @ replicate 8 Empty
   \<and> int (count_list (pl_bar (snd (projr (update 1 (init 0 22 ''Processing'' 22) 15)))) Filled)
       \<noteq> \<lfloor>real_of_int (bar_length (init 0 22 ''Processing'' 22)) * real_of_int 15
           / real_of_int (total (init 0 22 ''Processing'' 22))\<rfloor>"
proof -
  obtain self' line where res: "update 1 (init 0 22 ''Processing'' 22) 15 = Inr (self', line)"
    using update_returns [of "init 0 22 ''Processing'' 22" 1 15] by (auto simp add: init_def)
  have "int_of_float (round_double (round_double 22 * min (round_double (15 / 22)) 1)) = 14"
    by (simp add: int_of_float_def double_eval)
  with update_line_bar(1) [OF res]
  have "pl_bar line = replicate 14 Filled @ replicate 8 Empty"
    by (simp add: init_def Let_def)
  then show ?thesis
    unfolding res by (simp add: init_def count_list_replicate)
qed

text \<open>
  Claim C1, amended. For a bar with \<open>total > 0\<close> and a length that is not negative, with
  \<open>bar_length * total < 2\<^sup>5\<^sup>2\<close>, and for \<open>0 \<le> current \<le> total\<close>, \<^verbatim>\<open>update(current)\<close> returns; the
  progress is \<open>min (current / total) 1\<close> and the percentage written is
  \<open>100 * current / total\<close> (floats exact there). The bar consists of \<open>k\<close> filled cells
  followed by \<open>bar_length - k\<close> empty ones, where \<open>k\<close> is \<^verbatim>\<open>int(self.bar_length * progress)\<close> as
  computed in doubles: \<open>k\<close> is \<open>\<lfloor>bar_length * current / total\<rfloor>\<close> or one less, it is
  \<open>\<lfloor>bar_length * current / total\<rfloor>\<close> whenever \<open>total\<close> does not divide
  \<open>bar_length * current\<close>, and it is \<open>\<lfloor>bar_length * current / total\<rfloor>\<close> in every case for the
  default length of 40 cells.
\<close>

theorem update_bar_cells:
  assumes "0 < total self" and "0 \<le> cur" and "cur \<le> total self" and "0 \<le> bar_length self"
    and "bar_length self * total self < 2 ^ 52"
  shows "\<exists>self' line.
           update now self cur = Inr (self', line)
           \<and> pl_progress line = min (real_of_int cur / real_of_int (total self)) 1
           \<and> pl_percent line = 100 * real_of_int cur / real_of_int (total self)
           \<and> (let k = int_of_float
                         (round_double (round_double (real_of_int (bar_length self))
                            * min (round_double (real_of_int cur / real_of_int (total self))) 1));
                   exact = \<lfloor>real_of_int (bar_length self) * real_of_int cur
                            / real_of_int (total self)\<rfloor>
               in pl_bar line
                    = replicate (nat k) Filled @ replicate (nat (bar_length self - k)) Empty
                  \<and> int (count_list (pl_bar line) Filled) = k
                  \<and> int (count_list (pl_bar line) Empty) = bar_length self - k
                  \<and> exact - 1 \<le> k \<and> k \<le> exact
                  \<and> ((bar_length self * cur) mod total self \<noteq> 0 \<longrightarrow> k = exact)
                  \<and> (bar_length self = 40 \<longrightarrow> k = exact))"
proof -
  let ?q = "real_of_int cur / real_of_int (total self)"
  let ?x = "round_double (round_double (real_of_int (bar_length self)) * min (round_double ?q) 1)"
  let ?k = "int_of_float ?x"
  let ?exact = "\<lfloor>real_of_int (bar_length self) * real_of_int cur / real_of_int (total self)\<rfloor>"
  note bounds = filled_bounds [OF assms(1,2,3,4,5)]
  note floors = filled_floor [OF assms(1,2,3,4,5)]
  have q: "0 \<le> ?q" "?q \<le> 1"
    using assms by simp_all
  then have min_q: "min ?q 1 = ?q"
    by simp
  have k: "?k = \<lfloor>?x\<rfloor>"
    using bounds(1) by (simp add: int_of_float_def)
  have "real_of_int (bar_length self) * real_of_int cur / real_of_int (total self)
          = real_of_int (bar_length self * cur) / real_of_int (total self)"
    by simp
  then have exact: "?exact = (bar_length self * cur) div total self"
    by (simp only: floor_divide_of_int_eq)
  have range: "0 \<le> ?k" "?k \<le> bar_length self"
    using bounds(1,2) by (simp_all only: k) (simp_all add: floor_le_iff le_floor_iff)
  have near: "?exact - 1 \<le> ?k" "?k \<le> ?exact"
    using floors(1,2) by (simp_all only: k exact)
  have rest: "(bar_length self * cur) mod total self \<noteq> 0 \<longrightarrow> ?k = ?exact"
    using floors(3) by (simp only: k exact) simp
  have default: "bar_length self = 40 \<longrightarrow> ?k = ?exact"
  proof
    assume len: "bar_length self = 40"
    have "\<lfloor>round_double (round_double (real_of_int 40) * min (round_double ?q) 1)\<rfloor>
            = (40 * cur) div total self"
      using assms(1,2,3,5) by (intro filled_default) (simp_all add: len)
    then show "?k = ?exact"
      using k exact unfolding len by simp
  qed
  obtain self' line where res: "update now self cur = Inr (self', line)"
    using update_returns [of self now cur] assms(1) by auto
  have bar: "pl_bar line = replicate (nat ?k) Filled @ replicate (nat (bar_length self - ?k)) Empty"
    using update_line_bar(1) [OF res] by (simp only: Let_def)
  have counts: "int (count_list (pl_bar line) Filled) = ?k"
    "int (count_list (pl_bar line) Empty) = bar_length self - ?k"
    using range by (simp_all add: bar count_list_replicate)
  have progress: "pl_progress line = min ?q 1"
    using update_line_bar(2) [OF res] .
  have percent: "pl_percent line = 100 * real_of_int cur / real_of_int (total self)"
    using update_line_bar(3) [OF res] by (simp add: min_q)
  show ?thesis
    unfolding Let_def
    by (rule exI [of _ self'], rule exI [of _ line], intro conjI)
       (rule res progress percent bar counts near rest default)+
qed

text \<open>
  Half of ten cycles on the default bar of 40 cells: 50 percent, 20 cells of each kind,
  which is \<open>\<lfloor>40 * 5 / 10\<rfloor>\<close>.
\<close>

theorem update_bar_cells_witness:
  "0 < total (init 0 10 ''Processing'' 40) \<and> (0::int) \<le> 5 \<and> 5 \<le> total (init 0 10 ''Processing'' 40)
   \<and> 0 \<le> bar_length (init 0 10 ''Processing'' 40)
   \<and> bar_length (init 0 10 ''Processing'' 40) * total (init 0 10 ''Processing'' 40) < 2 ^ 52
   \<and> (\<exists>self' line. update 1 (init 0 10 ''Processing'' 40) 5 = Inr (self', line)
          \<and> pl_progress line = 1 / 2 \<and> pl_percent line = 50
          \<and> pl_bar line = replicate 20 Filled @ replicate 20 Empty
          \<and> count_list (pl_bar line) Filled = 20 \<and> count_list (pl_bar line) Empty = 20)"
  using update_bar_cells [of "init 0 10 ''Processing'' 40" 5 1]
  by (simp add: init_def Let_def int_of_float_def double_eval)

text \<open>
  Claim C2. With \<open>elapsed_time\<close> the clock reading minus \<open>start_time\<close>, \<open>progress\<close> the
  fraction done and \<open>samples\<close> the buffer before the call: the throughput is
  \<open>current / elapsed_time\<close> and the estimate is, with at least two samples, their mean times
  \<open>total - current\<close> (0 unless \<open>current > 0\<close>), and with fewer than two samples
  \<open>elapsed_time * (1 - progress) / progress\<close> (0 unless \<open>progress > 0\<close>); both are 0 when
  \<open>elapsed_time \<le> 0\<close>.
\<close>

theorem update_speed_eta:
  assumes "total self \<noteq> 0"
  shows "\<exists>self' line. update now self cur = Inr (self', line)
           \<and> (let elapsed_time = now - start_time self;
                    progress = min (real_of_int cur / real_of_int (total self)) 1;
                    samples = iteration_times self
                in pl_speed line =
                     (if 0 < elapsed_time then real_of_int cur / elapsed_time else 0)
                   \<and> pl_eta line =
                       (if 0 < elapsed_time then
                          (if 2 \<le> length samples then
                             (if 0 < cur then
                                sum_list samples / real (length samples)
                                * real_of_int (total self - cur)
                              else 0)
                           else
                             (if 0 < progress then elapsed_time * (1 - progress) / progress
                              else 0))
                        else 0))"
  using assms
  by (simp add: update_def truediv_int_def bind_def Let_def split: prod.splits)

text \<open>
  Five of ten cycles after two seconds, with the samples 1 and 3 and with no sample, and
  the same call with no time elapsed.
\<close>

theorem update_speed_eta_witness:
  "total ((init 0 10 ''Processing'' 40)\<lparr>iteration_times := [1, 3]\<rparr>) \<noteq> 0
   \<and> (\<exists>self' line.
          update 2 ((init 0 10 ''Processing'' 40)\<lparr>iteration_times := [1, 3]\<rparr>) 5 = Inr (self', line)
          \<and> pl_speed line = 5 / 2 \<and> pl_eta line = 10)
   \<and> (\<exists>self' line. update 2 (init 0 10 ''Processing'' 40) 5 = Inr (self', line)
          \<and> pl_speed line = 5 / 2 \<and> pl_eta line = 2)
   \<and> (\<exists>self' line. update 0 (init 0 10 ''Processing'' 40) 5 = Inr (self', line)
          \<and> pl_speed line = 0 \<and> pl_eta line = 0)"
  using update_speed_eta [of "(init 0 10 ''Processing'' 40)\<lparr>iteration_times := [1, 3]\<rparr>" 2 5]
    update_speed_eta [of "init 0 10 ''Processing'' 40" 2 5]
    update_speed_eta [of "init 0 10 ''Processing'' 40" 0 5]
  by (simp add: init_def Let_def)

subsection \<open>Sequences of calls\<close>

lemma updates_returns:
  "total self \<noteq> 0 \<Longrightarrow> \<exists>self'. updates self calls = Inr self' \<and> total self' = total self"
proof (induction calls arbitrary: self)
  case Nil
  then show ?case by simp
next
  case (Cons call calls)
  obtain now cur where call: "call = (now, cur)" by (cases call)
  obtain mid line where step: "update now self cur = Inr (mid, line)"
    using update_returns [OF Cons.prems] by blast
  have "total mid \<noteq> 0"
    using update_attributes [OF step] Cons.prems by simp
  from Cons.IH [OF this] obtain self' where "updates mid calls = Inr self'" "total self' = total mid"
    by blast
  then show ?case
    using step update_attributes [OF step] by (simp add: call bind_def)
qed

text \<open>
  Claim C4. On a bar created by \<^verbatim>\<open>__init__\<close> any sequence of calls of \<^verbatim>\<open>update\<close> leaves at
  most 100 samples. One call appends the sample \<open>elapsed_time / current\<close> if and only if
  \<open>current > 0\<close>, and when the buffer was full it drops the oldest sample, the head of the
  list; with \<open>current \<le> 0\<close> the buffer is unchanged.
\<close>

theorem update_sample_buffer:
  "(tot \<noteq> 0 \<longrightarrow>
      (\<exists>self. updates (init t0 tot d len) calls = Inr self \<and> length (iteration_times self) \<le> 100))
   \<and> (total self0 \<noteq> 0 \<longrightarrow>
        (\<exists>self' line. update now self0 cur = Inr (self', line)
           \<and> iteration_times self' =
               (if 0 < cur then
                  (if length (iteration_times self0) < 100
                   then iteration_times self0 @ [(now - start_time self0) / real_of_int cur]
                   else tl (iteration_times self0) @ [(now - start_time self0) / real_of_int cur])
                else iteration_times self0)
           \<and> (length (iteration_times self0) \<le> 100 \<longrightarrow> length (iteration_times self') \<le> 100)))"
proof (intro conjI impI)
  assume "tot \<noteq> 0"
  then obtain self where run: "updates (init t0 tot d len) calls = Inr self"
    using updates_returns [of "init t0 tot d len" calls] by (auto simp add: init_def)
  have "length (iteration_times (init t0 tot d len)) \<le> 100"
    by (simp add: init_def)
  from updates_keeps_bound [OF run this] run
  show "\<exists>self. updates (init t0 tot d len) calls = Inr self \<and> length (iteration_times self) \<le> 100"
    by blast
next
  assume "total self0 \<noteq> 0"
  then obtain self' line where step: "update now self0 cur = Inr (self', line)"
    using update_returns by blast
  show "\<exists>self' line. update now self0 cur = Inr (self', line)
           \<and> iteration_times self' =
               (if 0 < cur then
                  (if length (iteration_times self0) < 100
                   then iteration_times self0 @ [(now - start_time self0) / real_of_int cur]
                   else tl (iteration_times self0) @ [(now - start_time self0) / real_of_int cur])
                else iteration_times self0)
           \<and> (length (iteration_times self0) \<le> 100 \<longrightarrow> length (iteration_times self') \<le> 100)"
    using step update_iteration_times [OF step] update_keeps_bound [OF step] by blast
qed

text \<open>The buffer after a sequence of calls, as a fold over the calls.\<close>

lemma updates_samples:
  "total self \<noteq> 0 \<Longrightarrow>
     \<exists>self'. updates self calls = Inr self'
       \<and> iteration_times self' =
           foldl (\<lambda>samples call.
                    if 0 < snd call then
                      (if length samples < 100
                       then samples @ [(fst call - start_time self) / real_of_int (snd call)]
                       else tl samples @ [(fst call - start_time self) / real_of_int (snd call)])
                    else samples)
             (iteration_times self) calls"
proof (induction calls arbitrary: self)
  case Nil
  then show ?case by simp
next
  case (Cons call calls)
  let ?next = "\<lambda>t samples call.
                    if 0 < snd call then
                      (if length samples < 100
                       then samples @ [(fst call - t) / real_of_int (snd call)]
                       else tl samples @ [(fst call - t) / real_of_int (snd call)])
                    else samples"
  obtain now cur where call: "call = (now, cur)" by (cases call)
  obtain mid line where step: "update now self cur = Inr (mid, line)"
    using update_returns [OF Cons.prems] by blast
  have attrs: "total mid = total self" "start_time mid = start_time self"
    using update_attributes [OF step] by simp_all
  have samples: "iteration_times mid = ?next (start_time self) (iteration_times self) (now, cur)"
    using update_iteration_times [OF step] by simp
  have "total mid \<noteq> 0"
    using attrs(1) Cons.prems by simp
  from Cons.IH [OF this] obtain self' where rest: "updates mid calls = Inr self'"
    and result: "iteration_times self' = foldl (?next (start_time mid)) (iteration_times mid) calls"
    by blast
  have "updates self (call # calls) = Inr self'"
    using step rest by (simp add: call bind_def)
  moreover have "iteration_times self'
      = foldl (?next (start_time self)) (iteration_times self) (call # calls)"
    unfolding result attrs(2) samples call by simp
  ultimately show ?case by blast
qed

text \<open>
  101 calls, the call with \<open>current = k\<close> made at time \<open>k * k\<close> for \<open>k\<close> from 2 to 102, so
  that its sample is \<open>k\<close>: the first sample, 2, is the one dropped.
\<close>

theorem update_sample_buffer_witness:
  "(102::int) \<noteq> 0
   \<and> (\<exists>self. updates (init 0 102 ''Processing'' 40)
                 (map (\<lambda>k. (real (k * k), int k)) [2..<103]) = Inr self
          \<and> length (iteration_times self) \<le> 100
          \<and> iteration_times self = map real [3..<103])"
proof -
  let ?calls = "map (\<lambda>k. (real (k * k), int k)) [2..<103]"
  have "\<exists>self. updates (init 0 102 ''Processing'' 40) ?calls = Inr self
           \<and> length (iteration_times self) \<le> 100"
    using update_sample_buffer [of 102 0 "''Processing''" 40 ?calls] by simp
  then obtain self where run: "updates (init 0 102 ''Processing'' 40) ?calls = Inr self"
    and bound: "length (iteration_times self) \<le> 100"
    by blast
  have "\<exists>self'. updates (init 0 102 ''Processing'' 40) ?calls = Inr self'
       \<and> iteration_times self' =
           foldl (\<lambda>samples call.
                    if 0 < snd call then
                      (if length samples < 100
                       then samples @ [(fst call - 0) / real_of_int (snd call)]
                       else tl samples @ [(fst call - 0) / real_of_int (snd call)])
                    else samples) [] ?calls"
    using updates_samples [of "init 0 102 ''Processing'' 40" ?calls] by (simp add: init_def)
  then have "iteration_times self =
           foldl (\<lambda>samples call.
                    if 0 < snd call then
                      (if length samples < 100
                       then samples @ [(fst call - 0) / real_of_int (snd call)]
                       else tl samples @ [(fst call - 0) / real_of_int (snd call)])
                    else samples) [] ?calls"
    using run by simp
  also have "\<dots> = map real [3..<103]"
    by simp
  finally show ?thesis
    using run bound by simp
qed

subsection \<open>Formatting of times\<close>

text \<open>The equations that evaluate a formatted number.\<close>

lemmas format_eval = format_f_def round_half_even_def zfill_def digits.simps digit_def divmod_def

text \<open>
  Claim C8. \<^verbatim>\<open>format_time\<close> has three tiers: below 60 seconds it prints the seconds with one
  decimal and \<open>s\<close>; below 3600 it prints the whole minutes, \<open>m\<close>, the remaining seconds
  without decimals and \<open>s\<close>; from 3600 on it prints the whole hours, \<open>h\<close>, the whole
  remaining minutes and \<open>m\<close>. So 0.5 gives \<open>0.5s\<close>, 90 gives \<open>1m 30s\<close> and 3700 gives
  \<open>1h 1m\<close>.
\<close>

theorem format_time_tiers:
  "(seconds < 60 \<longrightarrow> format_time seconds = format_f 1 seconds @ ''s'')
   \<and> (60 \<le> seconds \<and> seconds < 3600 \<longrightarrow>
        format_time seconds =
          format_f 0 (real_of_int \<lfloor>seconds / 60\<rfloor>) @ ''m ''
          @ format_f 0 (seconds - real_of_int \<lfloor>seconds / 60\<rfloor> * 60) @ ''s'')
   \<and> (3600 \<le> seconds \<longrightarrow>
        format_time seconds =
          format_f 0 (real_of_int \<lfloor>seconds / 3600\<rfloor>) @ ''h ''
          @ format_f 0 (real_of_int \<lfloor>(seconds - real_of_int \<lfloor>seconds / 3600\<rfloor> * 3600) / 60\<rfloor>)
          @ ''m'')
   \<and> format_time (1 / 2) = ''0.5s''
   \<and> format_time 90 = ''1m 30s''
   \<and> format_time 3700 = ''1h 1m''"
proof (intro conjI impI)
  show "format_time (1 / 2) = ''0.5s''"
    by (simp add: format_time_def format_eval)
  show "format_time 90 = ''1m 30s''"
    by (simp add: format_time_def format_eval)
  show "format_time 3700 = ''1h 1m''"
    by (simp add: format_time_def format_eval)
qed (simp_all add: format_time_def divmod_def Let_def)

text \<open>One time in each tier.\<close>

theorem format_time_tiers_witness:
  "(1 / 2 :: real) < 60 \<and> format_time (1 / 2) = format_f 1 (1 / 2) @ ''s''
   \<and> (60 :: real) \<le> 90 \<and> (90 :: real) < 3600
   \<and> format_time 90 = format_f 0 1 @ ''m '' @ format_f 0 30 @ ''s''
   \<and> (3600 :: real) \<le> 3700
   \<and> format_time 3700 = format_f 0 1 @ ''h '' @ format_f 0 1 @ ''m''"
  using format_time_tiers [of "1 / 2"] format_time_tiers [of 90] format_time_tiers [of 3700]
  by simp

subsection \<open>The summary\<close>

text \<open>\<^verbatim>\<open>calculate_performance_metrics\<close> never raises: the dictionary it returns.\<close>

lemma metrics_returns:
  "calculate_performance_metrics num_cycles total_time_sec cpu_time_sec =
     Inr \<lparr>total_time = total_time_sec, cpu_time = cpu_time_sec,
          cycles_per_second =
            (if 0 < total_time_sec then real_of_int num_cycles / total_time_sec else 0),
          seconds_per_cycle =
            (if 0 < num_cycles then total_time_sec / real_of_int num_cycles else 0),
          cpu_efficiency =
            (if 0 < total_time_sec then cpu_time_sec / total_time_sec * 100 else 0),
          rating =
            (let cps = (if 0 < total_time_sec then real_of_int num_cycles / total_time_sec else 0)
             in if 10000000 \<le> cps then EXTREME
                else if 1000000 \<le> cps then EXCELLENT
                else if 100000 \<le> cps then GREAT
                else if 10000 \<le> cps then GOOD
                else if 1000 \<le> cps then AVERAGE
                else SLOW)\<rparr>"
  by (simp add: calculate_performance_metrics_def truediv_def bind_def Let_def)

text \<open>
  Claim C3. The rating is the tier of the highest threshold that \<open>cycles_per_second\<close>
  reaches, so every value has exactly one tier; a value of exactly
  \<open>10\<^sup>7\<close>, \<open>10\<^sup>6\<close>, \<open>10\<^sup>5\<close>, \<open>10\<^sup>4\<close>, \<open>10\<^sup>3\<close> is rated EXTREME, EXCELLENT, GREAT, GOOD,
  AVERAGE, and 999 is rated SLOW.
\<close>

theorem rating_tiers:
  "\<exists>m. calculate_performance_metrics num_cycles total_time_sec cpu_time_sec = Inr m
     \<and> (rating m = EXTREME \<longleftrightarrow> 10000000 \<le> cycles_per_second m)
     \<and> (rating m = EXCELLENT \<longleftrightarrow>
          1000000 \<le> cycles_per_second m \<and> cycles_per_second m < 10000000)
     \<and> (rating m = GREAT \<longleftrightarrow> 100000 \<le> cycles_per_second m \<and> cycles_per_second m < 1000000)
     \<and> (rating m = GOOD \<longleftrightarrow> 10000 \<le> cycles_per_second m \<and> cycles_per_second m < 100000)
     \<and> (rating m = AVERAGE \<longleftrightarrow> 1000 \<le> cycles_per_second m \<and> cycles_per_second m < 10000)
     \<and> (rating m = SLOW \<longleftrightarrow> cycles_per_second m < 1000)
     \<and> (cycles_per_second m = 10000000 \<longrightarrow> rating m = EXTREME)
     \<and> (cycles_per_second m = 1000000 \<longrightarrow> rating m = EXCELLENT)
     \<and> (cycles_per_second m = 100000 \<longrightarrow> rating m = GREAT)
     \<and> (cycles_per_second m = 10000 \<longrightarrow> rating m = GOOD)
     \<and> (cycles_per_second m = 1000 \<longrightarrow> rating m = AVERAGE)
     \<and> (cycles_per_second m = 999 \<longrightarrow> rating m = SLOW)"
  unfolding metrics_returns by (simp add: Let_def)

text \<open>Runs of one second whose number of cycles is each boundary value.\<close>

theorem rating_tiers_witness:
  "(\<exists>m. calculate_performance_metrics 10000000 1 1 = Inr m
        \<and> cycles_per_second m = 10000000 \<and> rating m = EXTREME)
   \<and> (\<exists>m. calculate_performance_metrics 1000000 1 1 = Inr m
        \<and> cycles_per_second m = 1000000 \<and> rating m = EXCELLENT)
   \<and> (\<exists>m. calculate_performance_metrics 100000 1 1 = Inr m
        \<and> cycles_per_second m = 100000 \<and> rating m = GREAT)
   \<and> (\<exists>m. calculate_performance_metrics 10000 1 1 = Inr m
        \<and> cycles_per_second m = 10000 \<and> rating m = GOOD)
   \<and> (\<exists>m. calculate_performance_metrics 1000 1 1 = Inr m
        \<and> cycles_per_second m = 1000 \<and> rating m = AVERAGE)
   \<and> (\<exists>m. calculate_performance_metrics 999 1 1 = Inr m
        \<and> cycles_per_second m = 999 \<and> rating m = SLOW)"
proof (intro conjI)
  show "\<exists>m. calculate_performance_metrics 10000000 1 1 = Inr m
        \<and> cycles_per_second m = 10000000 \<and> rating m = EXTREME"
    using rating_tiers [of 10000000 1 1] by (simp add: metrics_returns)
  show "\<exists>m. calculate_performance_metrics 1000000 1 1 = Inr m
        \<and> cycles_per_second m = 1000000 \<and> rating m = EXCELLENT"
    using rating_tiers [of 1000000 1 1] by (simp add: metrics_returns)
  show "\<exists>m. calculate_performance_metrics 100000 1 1 = Inr m
        \<and> cycles_per_second m = 100000 \<and> rating m = GREAT"
    using rating_tiers [of 100000 1 1] by (simp add: metrics_returns)
  show "\<exists>m. calculate_performance_metrics 10000 1 1 = Inr m
        \<and> cycles_per_second m = 10000 \<and> rating m = GOOD"
    using rating_tiers [of 10000 1 1] by (simp add: metrics_returns)
  show "\<exists>m. calculate_performance_metrics 1000 1 1 = Inr m
        \<and> cycles_per_second m = 1000 \<and> rating m = AVERAGE"
    using rating_tiers [of 1000 1 1] by (simp add: metrics_returns)
  show "\<exists>m. calculate_performance_metrics 999 1 1 = Inr m
        \<and> cycles_per_second m = 999 \<and> rating m = SLOW"
    using rating_tiers [of 999 1 1] by (simp add: metrics_returns)
qed

text \<open>
  Claim C5. For all arguments \<^verbatim>\<open>calculate_performance_metrics\<close> returns a dictionary, so no
  division in it raises; with \<open>total_time_sec = 0\<close> the dictionary has
  \<open>cycles_per_second = 0\<close> and \<open>cpu_efficiency = 0\<close>.
\<close>

theorem metrics_divisions_guarded:
  "(\<exists>m. calculate_performance_metrics num_cycles total_time_sec cpu_time_sec = Inr m)
   \<and> (\<exists>m. calculate_performance_metrics num_cycles 0 cpu_time_sec = Inr m
          \<and> cycles_per_second m = 0 \<and> cpu_efficiency m = 0)"
  by (simp add: metrics_returns)

subsection \<open>The predictions\<close>

text \<open>The loop shows the counts above \<open>num_cycles\<close>, each with the linear estimate.\<close>

lemma predictions_cycles:
  "map pr_cycles (predictions num_cycles time_per_cycle counts)
     = filter (\<lambda>cycles. num_cycles < cycles) counts"
  by (induction counts) (simp_all add: predicted_def Let_def split: prod.splits)

lemma predictions_estimated_time:
  "map pr_estimated_time (predictions num_cycles time_per_cycle counts)
     = map (\<lambda>cycles. time_per_cycle * real_of_int cycles)
         (filter (\<lambda>cycles. num_cycles < cycles) counts)"
  by (induction counts) (simp_all add: predicted_def Let_def split: prod.splits)

text \<open>
  Claim C6. \<^verbatim>\<open>display_predictions\<close> goes through the seven counts from 100 to \<open>10\<^sup>8\<close>, prints
  a row exactly for the counts greater than \<open>num_cycles\<close>, in order, and the estimate of
  a row is its count times \<open>seconds_per_cycle\<close>.
\<close>

theorem predictions_linear:
  "test_cycles = [100, 1000, 10000, 100000, 1000000, 10000000, 100000000]
   \<and> map pr_cycles (display_predictions num_cycles m)
       = filter (\<lambda>cycles. num_cycles < cycles) test_cycles
   \<and> map pr_estimated_time (display_predictions num_cycles m)
       = map (\<lambda>cycles. seconds_per_cycle m * real_of_int cycles)
           (filter (\<lambda>cycles. num_cycles < cycles) test_cycles)"
  by (simp add: display_predictions_def predictions_cycles predictions_estimated_time)
     (simp add: test_cycles_def)

text \<open>The row for 100000 cycles at a millisecond per cycle.\<close>

lemma predicted_cycles: "pr_cycles (predicted time_per_cycle count) = count"
  by (simp add: predicted_def Let_def split: prod.splits)

lemma predicted_100000:
  "predicted (1 / 1000) 100000 =
     \<lparr>pr_cycles = 100000, pr_estimated_time = 100, pr_time_str = ''1.7'', pr_unit = Minutes\<rparr>"
  by (simp add: predicted_def format_eval)

text \<open>
  Claim C7 as stated fails. After 1000 cycles at a millisecond per cycle, the second row
  printed is the one for 100000 cycles; its estimate is 100 seconds, and it is not
  printed in seconds, since 100 is not below 60.
\<close>

theorem prediction_of_100_seconds_not_in_seconds:
  "pr_cycles (display_predictions 1000
      \<lparr>total_time = 1, cpu_time = 1, cycles_per_second = 1000, seconds_per_cycle = 1 / 1000,
        cpu_efficiency = 100, rating = AVERAGE\<rparr> ! 1) = 100000
   \<and> pr_estimated_time (display_predictions 1000
      \<lparr>total_time = 1, cpu_time = 1, cycles_per_second = 1000, seconds_per_cycle = 1 / 1000,
        cpu_efficiency = 100, rating = AVERAGE\<rparr> ! 1) = 100
   \<and> pr_unit (display_predictions 1000
      \<lparr>total_time = 1, cpu_time = 1, cycles_per_second = 1000, seconds_per_cycle = 1 / 1000,
        cpu_efficiency = 100, rating = AVERAGE\<rparr> ! 1) \<noteq> Seconds"
  by (simp add: display_predictions_def test_cycles_def predicted_100000)

text \<open>
  Claim C7, amended. With \<open>seconds_per_cycle = 0.001\<close> and 1000 cycles executed, the rows
  printed are those of 10000 cycles and more; the row for 100000 cycles has the estimate
  100 seconds and is printed in minutes, as \<open>1.7\<close> min, the tier of the estimates from 60
  up to 3600 seconds. The loop run on the single count 100000 prints that row alone.
\<close>

theorem prediction_of_100_seconds:
  assumes "seconds_per_cycle m = 1 / 1000"
  shows "display_predictions 1000 m ! 1 =
           \<lparr>pr_cycles = 100000, pr_estimated_time = 100, pr_time_str = ''1.7'',
            pr_unit = Minutes\<rparr>
         \<and> map pr_cycles (display_predictions 1000 m)
             = [10000, 100000, 1000000, 10000000, 100000000]
         \<and> predictions 1000 (seconds_per_cycle m) [100000] =
             [\<lparr>pr_cycles = 100000, pr_estimated_time = 100, pr_time_str = ''1.7'',
               pr_unit = Minutes\<rparr>]"
proof -
  have "display_predictions 1000 m = predictions 1000 (1 / 1000) test_cycles"
    by (simp only: display_predictions_def assms)
  then show ?thesis
    by (simp add: assms test_cycles_def predicted_100000 predicted_cycles)
qed

text \<open>The dictionary of a run of 1000 cycles in one second.\<close>

theorem prediction_of_100_seconds_witness:
  "seconds_per_cycle \<lparr>total_time = 1, cpu_time = 1, cycles_per_second = 1000,
      seconds_per_cycle = 1 / 1000, cpu_efficiency = 100, rating = AVERAGE\<rparr> = 1 / 1000
   \<and> display_predictions 1000
        \<lparr>total_time = 1, cpu_time = 1, cycles_per_second = 1000, seconds_per_cycle = 1 / 1000,
          cpu_efficiency = 100, rating = AVERAGE\<rparr> ! 1
       = \<lparr>pr_cycles = 100000, pr_estimated_time = 100, pr_time_str = ''1.7'', pr_unit = Minutes\<rparr>"
  using prediction_of_100_seconds
    [of "\<lparr>total_time = 1, cpu_time = 1, cycles_per_second = 1000, seconds_per_cycle = 1 / 1000,
          cpu_efficiency = 100, rating = AVERAGE\<rparr>"]
  by simp

subsection \<open>The loop over the cycles\<close>

text \<open>The simulated work never raises: the square root and the logarithm stay in range.\<close>

lemma work_returns: "\<exists>result. work i = Inr result"
  by (simp add: work_def math_sqrt_def math_log_def bind_def)

text \<open>\<^verbatim>\<open>update(self.total)\<close>, the call made by \<^verbatim>\<open>finish\<close>, writes 100 percent.\<close>

lemma update_total:
  assumes "total self \<noteq> 0"
  shows "\<exists>self' line. update now self (total self) = Inr (self', line)
           \<and> current self' = total self \<and> total self' = total self
           \<and> pl_progress line = 1 \<and> pl_percent line = 100
           \<and> pl_percent_str line = ''100.00''"
proof -
  obtain self' line where res: "update now self (total self) = Inr (self', line)"
    using update_returns [OF assms] by blast
  have "pl_progress line = 1" "pl_percent line = 100"
    "pl_percent_str line = rjust 6 (format_f 2 100)"
    using res assms
    by (auto simp add: update_def truediv_int_def bind_def Let_def split: prod.splits)
  moreover have "rjust 6 (format_f 2 100) = ''100.00''"
    by (simp add: rjust_def format_eval)
  ultimately show ?thesis
    using res update_attributes [OF res] by simp
qed

text \<open>
  A pass of the loop returns when neither remainder has a zero divisor, and so does the
  whole loop; the bar keeps its total.
\<close>

lemma cycle_returns:
  assumes "batch_size \<noteq> 0" and "num_cycles div 10 \<noteq> 0" and "total (progress_bar st) \<noteq> 0"
  shows "\<exists>st'. cycle clk num_cycles batch_size i st = Inr st'
           \<and> total (progress_bar st') = total (progress_bar st)"
proof -
  obtain result where work: "work i = Inr result"
    using work_returns by blast
  obtain pb line
    where upd: "update (time_time clk (ticks st)) (progress_bar st) (i + 1) = Inr (pb, line)"
    using update_returns [OF assms(3)] by blast
  have pb: "total pb = total (progress_bar st)"
    using update_attributes [OF upd] by simp
  show ?thesis
    using assms(1,2) pb
    by (simp add: cycle_def work upd bind_def mod_int_def truediv_def Let_def)
qed

lemma cycles_returns:
  assumes "batch_size \<noteq> 0" and "num_cycles div 10 \<noteq> 0" and "total (progress_bar st) \<noteq> 0"
  shows "\<exists>st'. cycles clk num_cycles batch_size i st = Inr st'
           \<and> total (progress_bar st') = total (progress_bar st)"
  using assms
proof (induction clk num_cycles batch_size i st rule: cycles.induct)
  case (1 clk num_cycles batch_size i st)
  show ?case
  proof (cases "i < num_cycles")
    case True
    obtain mid where step: "cycle clk num_cycles batch_size i st = Inr mid"
      and mid: "total (progress_bar mid) = total (progress_bar st)"
      using cycle_returns [OF "1.prems"] by blast
    have "total (progress_bar mid) \<noteq> 0"
      using mid "1.prems"(3) by simp
    from "1.IH" [OF True step "1.prems"(1,2) this]
    obtain st' where "cycles clk num_cycles batch_size (i + 1) mid = Inr st'"
      and "total (progress_bar st') = total (progress_bar mid)"
      by blast
    then show ?thesis
      using True step mid by (subst cycles.simps) simp
  next
    case False
    then show ?thesis
      by (subst cycles.simps) simp
  qed
qed

text \<open>From ten cycles on, \<^verbatim>\<open>perform_cycles\<close> returns and its last line shows 100 percent.\<close>

lemma perform_cycles_completes:
  assumes "10 \<le> num_cycles"
  shows "\<exists>result st. perform_cycles clk num_cycles = Inr (result, st)
           \<and> total (progress_bar st) = num_cycles \<and> current (progress_bar st) = num_cycles
           \<and> written st \<noteq> []
           \<and> pl_progress (last (written st)) = 1 \<and> pl_percent (last (written st)) = 100
           \<and> pl_percent_str (last (written st)) = ''100.00''"
proof -
  let ?batch_size = "max 1 (min (num_cycles div 100) 10000)"
  let ?st0 = "\<lparr>ticks = 4, progress_bar = init (time_time clk 2) num_cycles ''Processing'' 40,
               data = \<lparr>start_memory = 0, cycle_times = [], batch_start = time_time clk 3\<rparr>,
               written = []\<rparr>"
  have "?batch_size \<noteq> 0"
    by simp
  moreover have "num_cycles div 10 \<noteq> 0"
    using assms by (simp add: zdiv_eq_0_iff)
  moreover have "total (progress_bar ?st0) \<noteq> 0"
    using assms by (simp add: init_def)
  ultimately obtain st where loop: "cycles clk num_cycles ?batch_size 0 ?st0 = Inr st"
    and st: "total (progress_bar st) = total (progress_bar ?st0)"
    using cycles_returns [of ?batch_size num_cycles ?st0 clk 0] by blast
  have total: "total (progress_bar st) = num_cycles"
    using st by (simp add: init_def)
  then have "total (progress_bar st) \<noteq> 0"
    using assms by simp
  from update_total [OF this, of "time_time clk (ticks st)"]
  obtain pb line
    where upd: "update (time_time clk (ticks st)) (progress_bar st) (total (progress_bar st))
                  = Inr (pb, line)"
      and pb: "current pb = total (progress_bar st)" "total pb = total (progress_bar st)"
      and line: "pl_progress line = 1" "pl_percent line = 100" "pl_percent_str line = ''100.00''"
    by blast
  have run: "perform_cycles clk num_cycles =
      Inr ((perf_counter_ns clk (ticks st + 2) - perf_counter_ns clk 0,
            real_of_int (perf_counter_ns clk (ticks st + 2) - perf_counter_ns clk 0) / 1000000000,
            process_time clk (ticks st + 3) - process_time clk 1,
            data st),
           st\<lparr>ticks := ticks st + 4, progress_bar := pb, written := written st @ [line]\<rparr>)"
    by (simp add: perform_cycles_def Let_def loop finish_def upd bind_def)
  show ?thesis
    unfolding run
    by (rule exI, rule exI, intro conjI, rule refl) (use pb line total in simp_all)
qed

text \<open>
  Claim C9. For every behaviour of the clocks, \<^verbatim>\<open>perform_cycles(10)\<close> returns without an
  exception; the bar ends with \<open>current = total = 10\<close>, as the last call of \<^verbatim>\<open>update\<close>, the
  one in \<^verbatim>\<open>finish\<close>, sets it, and the last line written has progress 1 and shows
  \<open>100.00\<close> percent.
\<close>

theorem perform_ten_cycles:
  "\<exists>result st. perform_cycles clk 10 = Inr (result, st)
     \<and> total (progress_bar st) = 10 \<and> current (progress_bar st) = 10
     \<and> written st \<noteq> []
     \<and> pl_progress (last (written st)) = 1 \<and> pl_percent (last (written st)) = 100
     \<and> pl_percent_str (last (written st)) = ''100.00''"
  using perform_cycles_completes [of 10 clk] by simp

text \<open>
  With \<open>num_cycles // 10 = 0\<close> the first pass calls \<^verbatim>\<open>update(1)\<close> and then raises at
  \<^verbatim>\<open>i % (num_cycles // 10)\<close>.
\<close>

lemma first_cycle_raises:
  assumes "num_cycles div 10 = 0" and "total (progress_bar st) \<noteq> 0"
  shows "cycle clk num_cycles 1 0 st = Inl ZeroDivisionError"
proof -
  obtain pb line
    where upd: "update (time_time clk (ticks st)) (progress_bar st) 1 = Inr (pb, line)"
    using update_returns [OF assms(2)] by blast
  show ?thesis
    using assms(1)
    by (simp add: cycle_def work_def upd bind_def mod_int_def Let_def)
qed

text \<open>
  Claim C10. For \<open>1 \<le> num_cycles \<le> 9\<close>, \<open>num_cycles // 10\<close> is 0, so the remainder
  \<^verbatim>\<open>i % (num_cycles // 10)\<close> raises \<^verbatim>\<open>ZeroDivisionError\<close>; the pass for \<open>i = 0\<close> raises it
  whatever the clocks read, \<^verbatim>\<open>perform_cycles\<close> ends with that exception, and \<^verbatim>\<open>main\<close> ends
  in its handler for \<^verbatim>\<open>Exception\<close>, which reports it.
\<close>

theorem few_cycles_raise:
  assumes "1 \<le> num_cycles" and "num_cycles \<le> 9"
  shows "num_cycles div 10 = 0
         \<and> mod_int 0 (num_cycles div 10) = Inl ZeroDivisionError
         \<and> (total (progress_bar st) = num_cycles \<longrightarrow>
              cycle clk num_cycles (max 1 (min (num_cycles div 100) 10000)) 0 st
                = Inl ZeroDivisionError)
         \<and> perform_cycles clk num_cycles = Inl ZeroDivisionError
         \<and> main clk num_cycles confirm = Reported ZeroDivisionError"
proof -
  let ?st0 = "\<lparr>ticks = 4, progress_bar = init (time_time clk 2) num_cycles ''Processing'' 40,
               data = \<lparr>start_memory = 0, cycle_times = [], batch_start = time_time clk 3\<rparr>,
               written = []\<rparr>"
  have tenth: "num_cycles div 10 = 0"
    using assms by simp
  have batch: "max 1 (min (num_cycles div 100) 10000) = 1"
    using assms by simp
  have first: "cycle clk num_cycles 1 0 st = Inl ZeroDivisionError"
    if "total (progress_bar st) = num_cycles" for st
    using first_cycle_raises [OF tenth, of st clk] that assms(1) by simp
  have "cycle clk num_cycles 1 0 ?st0 = Inl ZeroDivisionError"
    by (rule first) (simp add: init_def)
  then have "cycles clk num_cycles 1 0 ?st0 = Inl ZeroDivisionError"
    using assms(1) by (subst cycles.simps) simp
  then have run: "perform_cycles clk num_cycles = Inl ZeroDivisionError"
    by (simp add: perform_cycles_def Let_def batch bind_def)
  have "main clk num_cycles confirm = Reported ZeroDivisionError"
    using assms(2) by (simp add: main_def run bind_def)
  then show ?thesis
    using tenth first run by (simp add: batch mod_int_def)
qed

text \<open>Five cycles, with clocks that read the number of readings made so far.\<close>

theorem few_cycles_raise_witness:
  "(1::int) \<le> 5 \<and> (5::int) \<le> 9
   \<and> total (progress_bar \<lparr>ticks = 4, progress_bar = init 0 5 ''Processing'' 40,
        data = \<lparr>start_memory = 0, cycle_times = [], batch_start = 0\<rparr>, written = []\<rparr>) = 5
   \<and> cycle \<lparr>time_time = real, perf_counter_ns = int, process_time = real\<rparr> 5 1 0
        \<lparr>ticks = 4, progress_bar = init 0 5 ''Processing'' 40,
          data = \<lparr>start_memory = 0, cycle_times = [], batch_start = 0\<rparr>, written = []\<rparr>
       = Inl ZeroDivisionError
   \<and> perform_cycles \<lparr>time_time = real, perf_counter_ns = int, process_time = real\<rparr> 5
       = Inl ZeroDivisionError
   \<and> main \<lparr>time_time = real, perf_counter_ns = int, process_time = real\<rparr> 5 []
       = Reported ZeroDivisionError"
  using few_cycles_raise [of 5
      "\<lparr>ticks = 4, progress_bar = init 0 5 ''Processing'' 40,
        data = \<lparr>start_memory = 0, cycle_times = [], batch_start = 0\<rparr>, written = []\<rparr>"
      "\<lparr>time_time = real, perf_counter_ns = int, process_time = real\<rparr>" "[]"]
  by (simp add: init_def)

end
